theory Spec2Isabelle
  imports Complex_Main "HOL-Library.Word"
begin

unbundle bit_operations_syntax

section \<open>Raw-transaction RPC layer of the SmileyCoin node (rpcrawtransaction.cpp)\<close>

text \<open>
  A shallow embedding of the functions of \<^verbatim>\<open>src/rpcrawtransaction.cpp\<close>:
  \<^verbatim>\<open>createrawtransaction\<close>, \<^verbatim>\<open>signrawtransaction\<close>,
  \<^verbatim>\<open>signrawtokentransaction\<close>, \<^verbatim>\<open>sendrawtransaction\<close>,
  \<^verbatim>\<open>GetHexStringFromBytes\<close>, \<^verbatim>\<open>createtoken\<close> / \<^verbatim>\<open>CreateToken\<close> and the
  output scan of \<^verbatim>\<open>inittoken\<close>.  Exceptions are values of a sum type, the node's
  mutable state is passed explicitly, and the collaborators that live in other files
  (script interpreter, key store, coin view, address codec) are parameters.
\<close>

subsection \<open>Machine types\<close>

type_synonym byte = "8 word"
type_synonym c_int = "32 word"
type_synonym int64_t = "64 word"
type_synonym uint256 = "256 word"

subsection \<open>Errors\<close>

text \<open>
  The codes passed to \<^verbatim>\<open>JSONRPCError\<close> in this file and by \<^verbatim>\<open>RPCTypeCheck\<close>, and the two other ways a call can
  stop: a \<^verbatim>\<open>std::runtime_error\<close> (thrown by the JSON accessors on a value of the wrong
  type), and an access outside an array, which C++ leaves undefined and the model
  reports as an error of its own.
\<close>

datatype RPCErrorCode =
    RPC_TYPE_ERROR
  | RPC_INVALID_PARAMETER
  | RPC_INVALID_ADDRESS_OR_KEY
  | RPC_DESERIALIZATION_ERROR
  | RPC_TRANSACTION_ERROR
  | RPC_TRANSACTION_REJECTED
  | RPC_TRANSACTION_ALREADY_IN_CHAIN
  | RPC_WALLET_ERROR

datatype error =
    JSONRPCError RPCErrorCode string
  | runtime_error string
  | OutOfRange string

subsection \<open>Transactions\<close>

text \<open>
  \<^verbatim>\<open>CScript\<close> (script.h) is a byte vector built with \<^verbatim>\<open>operator<<\<close>.
  Modelled from the spec: script.h is not part of the sources at hand, so a script is
  kept as the sequence of items appended to it, an opcode or a data push
  ("a null-data opcode followed by the decoded bytes").
\<close>

datatype opcodetype = OP_RETURN | OP_OTHER byte

datatype script_item = Op opcodetype | Push "byte list"

type_synonym CScript = "script_item list"

record COutPoint =
  hash :: uint256
  n :: c_int

record CTxIn =
  prevout :: COutPoint
  scriptSig :: CScript
  nSequence :: c_int

record CTxOut =
  nValue :: int64_t
  scriptPubKey :: CScript

record CMutableTransaction =
  nVersion :: c_int
  vin :: "CTxIn list"
  vout :: "CTxOut list"
  nLockTime :: c_int

text \<open>\<^verbatim>\<open>CTxIn in(COutPoint(txid, nOutput))\<close>: empty script, maximal sequence number.\<close>

definition CTxIn_of :: "COutPoint \<Rightarrow> CTxIn" where
  "CTxIn_of p = \<lparr>prevout = p, scriptSig = [], nSequence = - 1\<rparr>"

text \<open>A default-constructed \<^verbatim>\<open>CMutableTransaction\<close>.\<close>

definition empty_tx :: CMutableTransaction where
  "empty_tx = \<lparr>nVersion = 1, vin = [], vout = [], nLockTime = 0\<rparr>"

text \<open>Signed comparison of 64-bit amounts; \<^verbatim>\<open>std::max(a, b)\<close> is \<^verbatim>\<open>(a < b) ? b : a\<close>.\<close>

definition max_int64 :: "int64_t \<Rightarrow> int64_t \<Rightarrow> int64_t" where
  "max_int64 a b = (if sint a < sint b then b else a)"

subsection \<open>JSON values and hexadecimal parameters\<close>

text \<open>
  The values of the JSON library, named after its type tags.  An object is the list of
  its pairs in the order given: it may repeat a name.
\<close>

datatype Value =
    null_type
  | str_type string
  | int_type int
  | real_type rat
  | bool_type bool
  | obj_type "(string \<times> Value) list"
  | array_type "Value list"

text \<open>\<^verbatim>\<open>find_value(obj, name)\<close>: the value of the first pair with that name, or null.\<close>

fun find_value :: "(string \<times> Value) list \<Rightarrow> string \<Rightarrow> Value" where
  "find_value [] name = null_type"
| "find_value ((k, v) # rest) name = (if k = name then v else find_value rest name)"

text \<open>
  Modelled from the spec: \<^verbatim>\<open>ParseHexV\<close> is declared in rpcserver.h and defined in a file
  that is not among the sources.  The spec speaks of "hex-encoded" parameters and their
  "decoded bytes"; the decoder takes a non-empty string of an even number of
  hexadecimal digits, two digits per byte, high digit first, and rejects anything else
  as an invalid parameter.
\<close>

definition HexDigit :: "char \<Rightarrow> nat option" where
  "HexDigit c =
     (let k = (of_char c :: nat) in
      if 48 \<le> k \<and> k \<le> 57 then Some (k - 48)
      else if 97 \<le> k \<and> k \<le> 102 then Some (k - 87)
      else if 65 \<le> k \<and> k \<le> 70 then Some (k - 55)
      else None)"

definition IsHex :: "string \<Rightarrow> bool" where
  "IsHex str = (list_all (\<lambda>c. HexDigit c \<noteq> None) str \<and> 0 < length str \<and> even (length str))"

fun ParseHex :: "string \<Rightarrow> byte list" where
  "ParseHex (a # b # rest) =
     (case (HexDigit a, HexDigit b) of
        (Some x, Some y) \<Rightarrow> of_nat (16 * x + y) # ParseHex rest
      | _ \<Rightarrow> [])"
| "ParseHex _ = []"

definition ParseHexV :: "Value \<Rightarrow> string \<Rightarrow> error + byte list" where
  "ParseHexV v strName =
     (let strHex = (case v of str_type s \<Rightarrow> s | _ \<Rightarrow> [])
      in if \<not> IsHex strHex
         then Inl (JSONRPCError RPC_INVALID_PARAMETER
                     (strName @ '' must be hexadecimal string (not '' @ strHex @ '')''))
         else Inr (ParseHex strHex))"

subsection \<open>GetHexStringFromBytes\<close>

text \<open>
  One arm of the two \<^verbatim>\<open>if / else if\<close> chains of the source: the digit appended for a
  half-byte value.  A value outside 0..15 matches no arm and appends nothing.
\<close>

definition hexDigitChain :: "c_int \<Rightarrow> string" where
  "hexDigitChain h =
     (if h = 0 then ''0'' else if h = 1 then ''1'' else if h = 2 then ''2''
      else if h = 3 then ''3'' else if h = 4 then ''4'' else if h = 5 then ''5''
      else if h = 6 then ''6'' else if h = 7 then ''7'' else if h = 8 then ''8''
      else if h = 9 then ''9'' else if h = 10 then ''a'' else if h = 11 then ''b''
      else if h = 12 then ''c'' else if h = 13 then ''d'' else if h = 14 then ''e''
      else if h = 15 then ''f'' else [])"

text \<open>
  \<^verbatim>\<open>int firstHalf = (character >> 4) & (unsigned char)(0x0F);\<close>
  The loop variable is a (signed) \<^verbatim>\<open>char\<close>: it is promoted to \<^verbatim>\<open>int\<close> by sign
  extension and shifted arithmetically before the mask is applied.
\<close>

definition firstHalf :: "byte \<Rightarrow> c_int" where
  "firstHalf character = signed_drop_bit 4 (scast character :: c_int) AND 0x0F"

text \<open>\<^verbatim>\<open>int secondHalf = character & (unsigned char)(0x0F);\<close>\<close>

definition secondHalf :: "byte \<Rightarrow> c_int" where
  "secondHalf character = (scast character :: c_int) AND 0x0F"

definition GetHexStringFromBytes :: "byte list \<Rightarrow> string" where
  "GetHexStringFromBytes c =
     foldl (\<lambda>s character.
              s @ hexDigitChain (firstHalf character) @ hexDigitChain (secondHalf character))
       [] c"

text \<open>
  The standard lowercase hexadecimal encoding, written from the specification's words:
  two digits per byte, high nibble first, bytes in order.
\<close>

definition hexmap :: string where
  "hexmap = ''0123456789abcdef''"

definition HexStr_spec :: "byte list \<Rightarrow> string" where
  "HexStr_spec v = concat (map (\<lambda>b. [hexmap ! (unat b div 16), hexmap ! (unat b mod 16)]) v)"

subsection \<open>inittoken: locating the funding output\<close>

text \<open>
  \<^verbatim>\<open>
  int nOutput = 0;
  int64_t checkAmount = 1001*COIN;
  BOOST_FOREACH(const CTxOut& inputTransactionOut, inputTransaction.vout) {
    if(inputTransactionOut.nValue == checkAmount)
      break;
    nOutput = nOutput + 1;
  }
  \<close>
  The constant \<^verbatim>\<open>COIN\<close> is declared outside this file and is a parameter.  The counter
  is a natural number: a transaction has far fewer than \<open>2^31\<close> outputs.
\<close>

fun scan_outputs :: "int64_t \<Rightarrow> CTxOut list \<Rightarrow> nat \<Rightarrow> nat" where
  "scan_outputs checkAmount [] nOutput = nOutput"
| "scan_outputs checkAmount (inputTransactionOut # rest) nOutput =
     (if nValue inputTransactionOut = checkAmount then nOutput
      else scan_outputs checkAmount rest (nOutput + 1))"

definition inittoken_nOutput :: "int64_t \<Rightarrow> CMutableTransaction \<Rightarrow> nat" where
  "inittoken_nOutput COIN inputTransaction = scan_outputs (1001 * COIN) (vout inputTransaction) 0"

subsection \<open>createtoken / CreateToken: the hashed preimage\<close>

text \<open>
  \<^verbatim>\<open>
  char buffer[length];
  file.read(buffer, length);
  string filestring(buffer);
  \<close>
  The file is read whole into \<^verbatim>\<open>buffer\<close>, which carries no terminator of its own, and
  the string is built with the constructor for NUL-terminated character arrays: it
  holds the bytes before the first zero byte.  When the buffer holds no zero byte the
  constructor reads beyond the array.
\<close>

definition string_of_buffer :: "byte list \<Rightarrow> error + byte list" where
  "string_of_buffer buffer =
     (if 0 \<in> set buffer then Inr (takeWhile (\<lambda>c. c \<noteq> 0) buffer)
      else Inl (OutOfRange ''string(buffer) reads past the end of buffer''))"

text \<open>
  \<^verbatim>\<open>hashWriter.write((const char*) &filestring[0], 64);\<close>
  Sixty-four bytes are read from the start of the string's storage.  A string of 63
  characters still has its terminating zero at index 63; a shorter one is read past its
  end.
\<close>

definition write_64 :: "byte list \<Rightarrow> error + byte list" where
  "write_64 filestring =
     (if 64 \<le> length filestring then Inr (take 64 filestring)
      else if length filestring = 63 then Inr (filestring @ [0])
      else Inl (OutOfRange ''hashWriter.write reads past the end of filestring''))"

text \<open>
  The bytes handed to the hash writer for a file and a previous transaction id
  (\<^verbatim>\<open>filestring = filestring + previousTxId\<close>).
\<close>

definition token_preimage :: "byte list \<Rightarrow> byte list \<Rightarrow> error + byte list" where
  "token_preimage buffer previousTxId =
     (case string_of_buffer buffer of
        Inl e \<Rightarrow> Inl e
      | Inr filestring \<Rightarrow> write_64 (filestring @ previousTxId))"

text \<open>
  The hash writer, the key operations and the text encodings of keys are declared in
  other files; they are parameters.  \<^verbatim>\<open>GetHash\<close> takes the two constructor arguments
  of \<^verbatim>\<open>CHashWriter\<close> and the bytes written.
\<close>

record 'key token_env =
  GetHash :: "c_int \<Rightarrow> c_int \<Rightarrow> byte list \<Rightarrow> uint256"
  Sign :: "'key \<Rightarrow> uint256 \<Rightarrow> byte list"
  PubKeyHashHex :: "'key \<Rightarrow> string"
  SecretToString :: "'key \<Rightarrow> string"

record token =
  Token_ID :: string
  Token_public_key :: string
  Token_private_key :: string

definition token_digest :: "'key token_env \<Rightarrow> byte list \<Rightarrow> byte list \<Rightarrow> error + uint256" where
  "token_digest env buffer previousTxId =
     (case token_preimage buffer previousTxId of
        Inl e \<Rightarrow> Inl e
      | Inr window \<Rightarrow> Inr (GetHash env 1 1 window))"

text \<open>
  \<^verbatim>\<open>CreateToken(pathToFile, previousTxId)\<close>, and the body of \<^verbatim>\<open>createtoken\<close>, which is
  the same text.  The file content and the key made by \<^verbatim>\<open>MakeNewKey\<close> are arguments.
\<close>

definition CreateToken :: "'key token_env \<Rightarrow> byte list \<Rightarrow> byte list \<Rightarrow> 'key \<Rightarrow> error + token" where
  "CreateToken env buffer previousTxId key =
     (case token_digest env buffer previousTxId of
        Inl e \<Rightarrow> Inl e
      | Inr digest \<Rightarrow>
          let signature = Sign env key digest in
          Inr \<lparr>Token_ID = GetHexStringFromBytes signature,
               Token_public_key = PubKeyHashHex env key,
               Token_private_key = SecretToString env key\<rparr>)"

subsection \<open>sendrawtransaction\<close>

text \<open>
  Modelled from the spec: \<^verbatim>\<open>CCoins\<close> is declared outside the sources.  A coin set holds
  the outputs of one transaction, a spent one marked as such, and the height of the
  block that confirmed it; an output is "available iff the index exists and has not been
  marked spent".
\<close>

record CCoins =
  coins_vout :: "CTxOut option list"
  nHeight :: c_int

definition IsAvailable :: "CCoins \<Rightarrow> nat \<Rightarrow> bool" where
  "IsAvailable coins nPos = (nPos < length (coins_vout coins) \<and> coins_vout coins ! nPos \<noteq> None)"

text \<open>
  The node's state as this function sees it: the identifiers in the memory pool, the
  confirmed coins (\<^verbatim>\<open>pcoinsTip\<close>), and the two notifications it sends, kept as logs.
\<close>

record node_state =
  mempool :: "uint256 list"
  pcoinsTip :: "uint256 \<Rightarrow> CCoins option"
  synced :: "uint256 list"
  relayed :: "uint256 list"

text \<open>
  What \<^verbatim>\<open>AcceptToMemoryPool\<close> answers: the state with the transaction admitted, or a
  validation state that is invalid (reject code and reason) or in error (reason).
\<close>

datatype accept_result =
    Accepted node_state
  | Invalid c_int string
  | Failed string

text \<open>
  The collaborators: the transaction decoder (\<^verbatim>\<open>ssData >> tx\<close>, \<open>None\<close> when it throws),
  the transaction hash, admission to the pool, and the text of a rejection
  (\<^verbatim>\<open>strprintf("%i: %s", code, reason)\<close>).
\<close>

record send_env =
  DecodeTx :: "byte list \<Rightarrow> CMutableTransaction option"
  GetHashTx :: "CMutableTransaction \<Rightarrow> uint256"
  AcceptToMemoryPool :: "node_state \<Rightarrow> CMutableTransaction \<Rightarrow> bool \<Rightarrow> accept_result"
  RejectText :: "c_int \<Rightarrow> string \<Rightarrow> string"

definition SyncWithWallets :: "uint256 \<Rightarrow> node_state \<Rightarrow> node_state" where
  "SyncWithWallets hashTx st = st\<lparr>synced := synced st @ [hashTx]\<rparr>"

definition RelayTransaction :: "uint256 \<Rightarrow> node_state \<Rightarrow> node_state" where
  "RelayTransaction hashTx st = st\<lparr>relayed := relayed st @ [hashTx]\<rparr>"

text \<open>\<^verbatim>\<open>bool fHaveMempool = mempool.exists(hashTx);\<close>\<close>

definition fHaveMempool :: "node_state \<Rightarrow> uint256 \<Rightarrow> bool" where
  "fHaveMempool st hashTx = (hashTx \<in> set (mempool st))"

text \<open>
  \<^verbatim>\<open>bool fHaveChain = view.GetCoins(hashTx, existingCoins) && existingCoins.nHeight < 1000000000;\<close>
\<close>

definition fHaveChain :: "node_state \<Rightarrow> uint256 \<Rightarrow> bool" where
  "fHaveChain st hashTx =
     (case pcoinsTip st hashTx of
        None \<Rightarrow> False
      | Some existingCoins \<Rightarrow> sint (nHeight existingCoins) < 1000000000)"

definition already_in_chain :: error where
  "already_in_chain = JSONRPCError RPC_TRANSACTION_ALREADY_IN_CHAIN ''transaction already in block chain''"

text \<open>
  The body of \<^verbatim>\<open>sendrawtransaction\<close> after the help check, on the hex string and the
  flag \<^verbatim>\<open>fOverrideFees\<close>.  The result is the transaction hash (the source returns its hex
  text) or the error thrown, with the state the call leaves.
\<close>

definition sendrawtransaction ::
  "send_env \<Rightarrow> node_state \<Rightarrow> Value \<Rightarrow> bool \<Rightarrow> (error + uint256) \<times> node_state" where
  "sendrawtransaction env st hexstring fOverrideFees =
     (case ParseHexV hexstring ''parameter'' of
        Inl e \<Rightarrow> (Inl e, st)
      | Inr txData \<Rightarrow>
         (case DecodeTx env txData of
            None \<Rightarrow> (Inl (JSONRPCError RPC_DESERIALIZATION_ERROR ''TX decode failed''), st)
          | Some tx \<Rightarrow>
             let hashTx = GetHashTx env tx in
             if \<not> fHaveMempool st hashTx \<and> \<not> fHaveChain st hashTx then
               (case AcceptToMemoryPool env st tx (\<not> fOverrideFees) of
                  Accepted st' \<Rightarrow>
                    (Inr hashTx, RelayTransaction hashTx (SyncWithWallets hashTx st'))
                | Invalid code reason \<Rightarrow>
                    (Inl (JSONRPCError RPC_TRANSACTION_REJECTED (RejectText env code reason)), st)
                | Failed reason \<Rightarrow>
                    (Inl (JSONRPCError RPC_TRANSACTION_ERROR reason), st))
             else if fHaveChain st hashTx then (Inl already_in_chain, st)
             else (Inr hashTx, RelayTransaction hashTx st)))"

subsection \<open>createrawtransaction\<close>

text \<open>
  \<^verbatim>\<open>split(str, hexdata, boost::is_any_of(":"))\<close>: the pieces between the colons, empty
  pieces kept; a string without a colon is one piece.
\<close>

fun split_colon :: "string \<Rightarrow> string list" where
  "split_colon [] = [[]]"
| "split_colon (c # cs) =
     (if c = CHR '':'' then [] # split_colon cs
      else (case split_colon cs of
              [] \<Rightarrow> [[c]]
            | w # ws \<Rightarrow> (c # w) # ws))"

text \<open>
  \<^verbatim>\<open>strtoll(s, NULL, 10)\<close> of the C library: leading white space is skipped, an optional
  sign is read, then decimal digits up to the first character that is not a digit; no
  digits give 0; a value outside the range of \<^verbatim>\<open>long long\<close> is replaced by the nearest
  bound.  \<open>strtoll_exact\<close> is the integer the text denotes, before that clamping.
\<close>

definition isspace :: "char \<Rightarrow> bool" where
  "isspace c = (let k = (of_char c :: nat) in k = 32 \<or> (9 \<le> k \<and> k \<le> 13))"

definition isdigit :: "char \<Rightarrow> bool" where
  "isdigit c = (let k = (of_char c :: nat) in 48 \<le> k \<and> k \<le> 57)"

fun digits_value :: "int \<Rightarrow> string \<Rightarrow> int" where
  "digits_value acc [] = acc"
| "digits_value acc (c # cs) =
     (if isdigit c then digits_value (10 * acc + (of_char c - 48)) cs else acc)"

definition strtoll_exact :: "string \<Rightarrow> int" where
  "strtoll_exact s =
     (case dropWhile isspace s of
        [] \<Rightarrow> 0
      | c # cs \<Rightarrow>
          if c = CHR ''-'' then - digits_value 0 cs
          else if c = CHR ''+'' then digits_value 0 cs
          else digits_value 0 (c # cs))"

definition LLONG_MAX :: int where
  "LLONG_MAX = 2 ^ 63 - 1"

definition LLONG_MIN :: int where
  "LLONG_MIN = - (2 ^ 63)"

definition strtoll :: "string \<Rightarrow> int64_t" where
  "strtoll s = word_of_int (max LLONG_MIN (min LLONG_MAX (strtoll_exact s)))"

text \<open>\<^verbatim>\<open>Value::get_int()\<close>: the stored 64-bit integer converted to \<^verbatim>\<open>int\<close>.\<close>

definition get_int :: "int \<Rightarrow> int" where
  "get_int v = sint (word_of_int v :: c_int)"

text \<open>
  The collaborators of the builder, all declared in other files: \<^verbatim>\<open>ParseHashO\<close>, the
  address type with its validity test and the script paying to it
  (\<^verbatim>\<open>scriptPubKey.SetDestination(address.Get())\<close>), \<^verbatim>\<open>AmountFromValue\<close>, and the
  constant \<^verbatim>\<open>COIN\<close>.  Two addresses are the same element of \<^verbatim>\<open>setAddress\<close> when they
  are equal as values of the address type.
\<close>

record 'a builder_env =
  ParseHashO :: "(string \<times> Value) list \<Rightarrow> string \<Rightarrow> error + uint256"
  CBitcoinAddress :: "string \<Rightarrow> 'a"
  IsValid :: "'a \<Rightarrow> bool"
  SetDestination :: "'a \<Rightarrow> CScript"
  AmountFromValue :: "Value \<Rightarrow> error + int64_t"
  COIN :: int64_t

definition invalid_address :: "string \<Rightarrow> error" where
  "invalid_address name = JSONRPCError RPC_INVALID_ADDRESS_OR_KEY (''Invalid Smileycoin address: '' @ name)"

definition duplicated_address :: "string \<Rightarrow> error" where
  "duplicated_address name =
     JSONRPCError RPC_INVALID_PARAMETER (''Invalid parameter, duplicated address: '' @ name)"

text \<open>The body of the loop over \<^verbatim>\<open>inputs\<close>.\<close>

definition add_input :: "'a builder_env \<Rightarrow> Value \<Rightarrow> CMutableTransaction \<Rightarrow> error + CMutableTransaction" where
  "add_input env input rawTx =
     (case input of
        obj_type obj \<Rightarrow>
          (case ParseHashO env obj ''txid'' of
             Inl e \<Rightarrow> Inl e
           | Inr txid \<Rightarrow>
               (case find_value obj ''vout'' of
                  int_type vout_v \<Rightarrow>
                    let nOutput = get_int vout_v in
                    if nOutput < 0
                    then Inl (JSONRPCError RPC_INVALID_PARAMETER ''Invalid parameter, vout must be positive'')
                    else
                      let txin = CTxIn_of \<lparr>hash = txid, n = word_of_int nOutput\<rparr> in
                      (case find_value obj ''sequence'' of
                         int_type sequence \<Rightarrow>
                           let nSeq = get_int sequence in
                           if nSeq < 0
                           then Inl (JSONRPCError RPC_INVALID_PARAMETER
                                       ''Invalid parameter, sequence must be positive'')
                           else Inr (rawTx\<lparr>vin := vin rawTx @ [txin\<lparr>nSequence := word_of_int nSeq\<rparr>]\<rparr>)
                       | _ \<Rightarrow> Inr (rawTx\<lparr>vin := vin rawTx @ [txin]\<rparr>))
                | _ \<Rightarrow> Inl (JSONRPCError RPC_INVALID_PARAMETER ''Invalid parameter, missing vout key'')))
      | _ \<Rightarrow> Inl (runtime_error ''value type is not obj''))"

fun add_inputs :: "'a builder_env \<Rightarrow> Value list \<Rightarrow> CMutableTransaction \<Rightarrow> error + CMutableTransaction" where
  "add_inputs env [] rawTx = Inr rawTx"
| "add_inputs env (input # rest) rawTx =
     (case add_input env input rawTx of
        Inl e \<Rightarrow> Inl e
      | Inr rawTx' \<Rightarrow> add_inputs env rest rawTx')"

text \<open>
  The body of the loop over \<^verbatim>\<open>sendTo\<close>, on the pair \<^verbatim>\<open>s\<close>, the transaction built so far
  and \<^verbatim>\<open>setAddress\<close>.
\<close>

definition data_output :: "'a builder_env \<Rightarrow> int64_t \<Rightarrow> byte list \<Rightarrow> CTxOut" where
  "data_output env amount data =
     \<lparr>nValue = max_int64 0 amount * COIN env, scriptPubKey = [Op OP_RETURN, Push data]\<rparr>"

definition add_output ::
  "'a builder_env \<Rightarrow> string \<times> Value \<Rightarrow> CMutableTransaction \<times> 'a list
     \<Rightarrow> error + CMutableTransaction \<times> 'a list" where
  "add_output env s acc =
     (case acc of (rawTx, setAddress) \<Rightarrow>
      if fst s = ''data'' then
        (case snd s of
           str_type hexdata \<Rightarrow>
             let str = split_colon hexdata in
             (case ParseHexV (str_type (str ! 0)) ''Data'' of
                Inl e \<Rightarrow> Inl e
              | Inr data \<Rightarrow>
                  let amount = (if length str = 2 then strtoll (str ! 1) else 0) in
                  Inr (rawTx\<lparr>vout := vout rawTx @ [data_output env amount data]\<rparr>, setAddress))
         | _ \<Rightarrow> Inl (runtime_error ''value type is not str''))
      else
        let address = CBitcoinAddress env (fst s) in
        if \<not> IsValid env address then Inl (invalid_address (fst s))
        else if address \<in> set setAddress then Inl (duplicated_address (fst s))
        else
          (case AmountFromValue env (snd s) of
             Inl e \<Rightarrow> Inl e
           | Inr nAmount \<Rightarrow>
               Inr (rawTx\<lparr>vout := vout rawTx
                              @ [\<lparr>nValue = nAmount, scriptPubKey = SetDestination env address\<rparr>]\<rparr>,
                    address # setAddress)))"

fun add_outputs ::
  "'a builder_env \<Rightarrow> (string \<times> Value) list \<Rightarrow> CMutableTransaction \<times> 'a list
     \<Rightarrow> error + CMutableTransaction \<times> 'a list" where
  "add_outputs env [] acc = Inr acc"
| "add_outputs env (s # rest) acc =
     (case add_output env s acc of
        Inl e \<Rightarrow> Inl e
      | Inr acc' \<Rightarrow> add_outputs env rest acc')"

text \<open>
  \<^verbatim>\<open>createrawtransaction\<close> after the help and type checks, on the array \<^verbatim>\<open>inputs\<close> and the
  object \<^verbatim>\<open>sendTo\<close>.  The source returns the hex text of the serialised transaction;
  the model returns the transaction.
\<close>

definition createrawtransaction ::
  "'a builder_env \<Rightarrow> Value list \<Rightarrow> (string \<times> Value) list \<Rightarrow> error + CMutableTransaction" where
  "createrawtransaction env inputs sendTo =
     (case add_inputs env inputs empty_tx of
        Inl e \<Rightarrow> Inl e
      | Inr rawTx \<Rightarrow>
          (case add_outputs env sendTo (rawTx, []) of
             Inl e \<Rightarrow> Inl e
           | Inr acc \<Rightarrow> Inr (fst acc)))"

subsection \<open>signrawtransaction and signrawtokentransaction\<close>

text \<open>
  Modelled from the spec: the signature-hash selectors are declared in script.h, which is
  not among the sources.  The six recognised combinations are \<open>ALL\<close>, \<open>NONE\<close>,
  \<open>SINGLE\<close>, each alone or with the modifier \<open>ANYONECANPAY\<close>.
\<close>

definition SIGHASH_ALL :: c_int where "SIGHASH_ALL = 1"
definition SIGHASH_NONE :: c_int where "SIGHASH_NONE = 2"
definition SIGHASH_SINGLE :: c_int where "SIGHASH_SINGLE = 3"
definition SIGHASH_ANYONECANPAY :: c_int where "SIGHASH_ANYONECANPAY = 0x80"

definition mapSigHashValues :: "(string \<times> c_int) list" where
  "mapSigHashValues =
     [(''ALL'', SIGHASH_ALL),
      (''ALL|ANYONECANPAY'', SIGHASH_ALL OR SIGHASH_ANYONECANPAY),
      (''NONE'', SIGHASH_NONE),
      (''NONE|ANYONECANPAY'', SIGHASH_NONE OR SIGHASH_ANYONECANPAY),
      (''SINGLE'', SIGHASH_SINGLE),
      (''SINGLE|ANYONECANPAY'', SIGHASH_SINGLE OR SIGHASH_ANYONECANPAY)]"

text \<open>
  The fourth parameter.  \<^verbatim>\<open>RPCTypeCheck(params, list_of(str_type)(array_type)(array_type)(str_type), true)\<close>
  lets a null or absent value through and rejects any other value that is not a string
  with a type error (rpcserver.h: "throws JSONRPCError if wrong type given"); the text of
  that error is made in a file that is not among the sources.  Null leaves \<^verbatim>\<open>SIGHASH_ALL\<close>; a string is looked up in the map.
\<close>

definition sighash_param :: "Value \<Rightarrow> error + c_int" where
  "sighash_param v =
     (case v of
        null_type \<Rightarrow> Inr SIGHASH_ALL
      | str_type strHashType \<Rightarrow>
          (case map_of mapSigHashValues strHashType of
             Some nHashType \<Rightarrow> Inr nHashType
           | None \<Rightarrow> Inl (JSONRPCError RPC_INVALID_PARAMETER ''Invalid sighash param''))
      | _ \<Rightarrow> Inl (JSONRPCError RPC_TYPE_ERROR ''Expected type str''))"

text \<open>\<^verbatim>\<open>bool fHashSingle = ((nHashType & ~SIGHASH_ANYONECANPAY) == SIGHASH_SINGLE);\<close>\<close>

definition fHashSingle :: "c_int \<Rightarrow> bool" where
  "fHashSingle nHashType = ((nHashType AND NOT SIGHASH_ANYONECANPAY) = SIGHASH_SINGLE)"

text \<open>
  The script collaborators.  \<^verbatim>\<open>SignSignature(keystore, prevPubKey, mergedTx, i, nHashType)\<close>
  writes the unlocking script of input \<open>i\<close> of the transaction it is given and nothing
  else of it; its boolean result is not used.  The model takes the script it leaves there.
  \<^verbatim>\<open>CombineSignatures\<close> returns a script, and \<^verbatim>\<open>VerifyScript\<close> is called with the flags
  \<^verbatim>\<open>SCRIPT_VERIFY_P2SH | SCRIPT_VERIFY_STRICTENC\<close>.
\<close>

record 'ks sign_env =
  SignSignature :: "'ks \<Rightarrow> CScript \<Rightarrow> CMutableTransaction \<Rightarrow> nat \<Rightarrow> c_int \<Rightarrow> CScript"
  CombineSignatures :: "CScript \<Rightarrow> CMutableTransaction \<Rightarrow> nat \<Rightarrow> CScript \<Rightarrow> CScript \<Rightarrow> CScript"
  VerifyScript :: "CScript \<Rightarrow> CScript \<Rightarrow> CMutableTransaction \<Rightarrow> nat \<Rightarrow> bool"

text \<open>
  The coin view during the loop: the cache filled from the chain and the memory pool for
  the inputs of the merge target, with the previous outputs given in the call added.
\<close>

type_synonym coins_view = "uint256 \<Rightarrow> CCoins option"

text \<open>
  \<^verbatim>\<open>if (!view.GetCoins(txin.prevout.hash, coins) || !coins.IsAvailable(txin.prevout.n))\<close>:
  the previous output of an input, \<open>None\<close> when the condition holds.
\<close>

definition prev_output :: "coins_view \<Rightarrow> CTxIn \<Rightarrow> CTxOut option" where
  "prev_output view txin =
     (case view (hash (prevout txin)) of
        None \<Rightarrow> None
      | Some coins \<Rightarrow>
          if IsAvailable coins (unat (n (prevout txin)))
          then coins_vout coins ! unat (n (prevout txin))
          else None)"

text \<open>Assignment to \<^verbatim>\<open>mergedTx.vin[i].scriptSig\<close> through the reference \<^verbatim>\<open>txin\<close>.\<close>

definition set_scriptSig :: "nat \<Rightarrow> CScript \<Rightarrow> CMutableTransaction \<Rightarrow> CMutableTransaction" where
  "set_scriptSig i s tx = tx\<lparr>vin := (vin tx)[i := (vin tx ! i)\<lparr>scriptSig := s\<rparr>]\<rparr>"

text \<open>
  \<^verbatim>\<open>
  txin.scriptSig.clear();
  if (!fHashSingle || (i < mergedTx.vout.size()))
      SignSignature(keystore, prevPubKey, mergedTx, i, nHashType);
  \<close>
\<close>

definition clear_and_sign ::
  "'ks sign_env \<Rightarrow> 'ks \<Rightarrow> c_int \<Rightarrow> CScript \<Rightarrow> nat \<Rightarrow> CMutableTransaction \<Rightarrow> CMutableTransaction" where
  "clear_and_sign env keystore nHashType prevPubKey i mergedTx =
     (let cleared = set_scriptSig i [] mergedTx in
      if \<not> fHashSingle nHashType \<or> i < length (vout cleared)
      then set_scriptSig i (SignSignature env keystore prevPubKey cleared i nHashType) cleared
      else cleared)"

text \<open>
  \<^verbatim>\<open>
  BOOST_FOREACH(const CMutableTransaction& txv, txVariants)
      txin.scriptSig = CombineSignatures(prevPubKey, mergedTx, i, txin.scriptSig, txv.vin[i].scriptSig);
  \<close>
  The read \<^verbatim>\<open>txv.vin[i]\<close> has no bounds check.  Where the variant has no input \<open>i\<close> the
  read is outside the vector and the model stops with \<open>OutOfRange\<close>.
\<close>

definition variant_out_of_range :: error where
  "variant_out_of_range = OutOfRange ''txv.vin[i]''"

fun combine_variants ::
  "'ks sign_env \<Rightarrow> CScript \<Rightarrow> nat \<Rightarrow> CMutableTransaction list \<Rightarrow> CMutableTransaction
     \<Rightarrow> error + CMutableTransaction" where
  "combine_variants env prevPubKey i [] mergedTx = Inr mergedTx"
| "combine_variants env prevPubKey i (txv # rest) mergedTx =
     (if i < length (vin txv)
      then combine_variants env prevPubKey i rest
             (set_scriptSig i
                (CombineSignatures env prevPubKey mergedTx i
                   (scriptSig (vin mergedTx ! i)) (scriptSig (vin txv ! i)))
                mergedTx)
      else Inl variant_out_of_range)"

text \<open>
  The merge of the specification, written from its words and not from the loop: "combine
  the freshly produced unlocking script with the corresponding input's unlocking script
  from every other decoded variant".  Starting from the transaction the signing step
  left, each variant in turn contributes its script of input \<open>i\<close> through
  \<^verbatim>\<open>CombineSignatures\<close>; the variants are all taken to have an input \<open>i\<close>.
\<close>

definition merge_one_spec ::
  "'ks sign_env \<Rightarrow> CScript \<Rightarrow> nat \<Rightarrow> CMutableTransaction \<Rightarrow> CMutableTransaction
     \<Rightarrow> CMutableTransaction" where
  "merge_one_spec env prevPubKey i tx txv =
     set_scriptSig i
       (CombineSignatures env prevPubKey tx i (scriptSig (vin tx ! i)) (scriptSig (vin txv ! i)))
       tx"

definition merge_all_spec ::
  "'ks sign_env \<Rightarrow> CScript \<Rightarrow> nat \<Rightarrow> CMutableTransaction list \<Rightarrow> CMutableTransaction
     \<Rightarrow> CMutableTransaction" where
  "merge_all_spec env prevPubKey i txVariants tx =
     foldl (merge_one_spec env prevPubKey i) tx txVariants"

text \<open>
  The transaction the specification describes for a resolved input \<open>i\<close>, from the merge
  target at the start of its turn: "clear any existing unlocking script", "produce a fresh
  signature unless the selector is SINGLE and there is no output at this input's index",
  then merge.
\<close>

definition merged_input_spec ::
  "'ks sign_env \<Rightarrow> 'ks \<Rightarrow> c_int \<Rightarrow> CMutableTransaction list \<Rightarrow> CScript \<Rightarrow> nat
     \<Rightarrow> CMutableTransaction \<Rightarrow> CMutableTransaction" where
  "merged_input_spec env keystore nHashType txVariants prevPubKey i tx =
     (let cleared = set_scriptSig i [] tx;
          start = (if fHashSingle nHashType \<and> length (vout tx) \<le> i then cleared
                   else set_scriptSig i
                          (SignSignature env keystore prevPubKey cleared i nHashType) cleared)
      in merge_all_spec env prevPubKey i txVariants start)"

text \<open>
  "Completeness is false if any input was left unresolved or failed final verification":
  what input \<open>i\<close> must pass, from the merge target at the start of its turn.
\<close>

definition input_complete_spec ::
  "'ks sign_env \<Rightarrow> 'ks \<Rightarrow> coins_view \<Rightarrow> c_int \<Rightarrow> CMutableTransaction list \<Rightarrow> nat
     \<Rightarrow> CMutableTransaction \<Rightarrow> bool" where
  "input_complete_spec env keystore view nHashType txVariants i tx =
     (case prev_output view (vin tx ! i) of
        None \<Rightarrow> False
      | Some prev \<Rightarrow>
          let m = merged_input_spec env keystore nHashType txVariants (scriptPubKey prev) i tx
          in VerifyScript env (scriptSig (vin m ! i)) (scriptPubKey prev) m i)"

text \<open>
  The body of the loop "Sign what we can" for input \<open>i\<close>, on the merge target and the
  flag \<^verbatim>\<open>fComplete\<close>.
\<close>

definition sign_input ::
  "'ks sign_env \<Rightarrow> 'ks \<Rightarrow> coins_view \<Rightarrow> c_int \<Rightarrow> CMutableTransaction list \<Rightarrow> nat
     \<Rightarrow> CMutableTransaction \<times> bool \<Rightarrow> error + CMutableTransaction \<times> bool" where
  "sign_input env keystore view nHashType txVariants i st =
     (case st of (mergedTx, fComplete) \<Rightarrow>
      (case prev_output view (vin mergedTx ! i) of
         None \<Rightarrow> Inr (mergedTx, False)
       | Some prev \<Rightarrow>
           let prevPubKey = scriptPubKey prev in
           (case combine_variants env prevPubKey i txVariants
                   (clear_and_sign env keystore nHashType prevPubKey i mergedTx) of
              Inl e \<Rightarrow> Inl e
            | Inr merged \<Rightarrow>
                if \<not> VerifyScript env (scriptSig (vin merged ! i)) prevPubKey merged i
                then Inr (merged, False)
                else Inr (merged, fComplete))))"

fun sign_inputs ::
  "'ks sign_env \<Rightarrow> 'ks \<Rightarrow> coins_view \<Rightarrow> c_int \<Rightarrow> CMutableTransaction list \<Rightarrow> nat list
     \<Rightarrow> CMutableTransaction \<times> bool \<Rightarrow> error + CMutableTransaction \<times> bool" where
  "sign_inputs env keystore view nHashType txVariants [] st = Inr st"
| "sign_inputs env keystore view nHashType txVariants (i # rest) st =
     (case sign_input env keystore view nHashType txVariants i st of
        Inl e \<Rightarrow> Inl e
      | Inr st' \<Rightarrow> sign_inputs env keystore view nHashType txVariants rest st')"

text \<open>
  \<^verbatim>\<open>for (unsigned int i = 0; i < mergedTx.vin.size(); i++)\<close>, from \<^verbatim>\<open>fComplete = true\<close>.
  The body never changes the number of inputs.
\<close>

definition sign_loop ::
  "'ks sign_env \<Rightarrow> 'ks \<Rightarrow> coins_view \<Rightarrow> c_int \<Rightarrow> CMutableTransaction list
     \<Rightarrow> CMutableTransaction \<Rightarrow> error + CMutableTransaction \<times> bool" where
  "sign_loop env keystore view nHashType txVariants mergedTx =
     sign_inputs env keystore view nHashType txVariants [0 ..< length (vin mergedTx)]
       (mergedTx, True)"

text \<open>
  \<^verbatim>\<open>signrawtransaction\<close> from the decoded variants on: the empty-list check, the merge
  target \<^verbatim>\<open>mergedTx(txVariants[0])\<close>, the hash type and the loop.  The decoding of the
  hex string into \<^verbatim>\<open>txVariants\<close>, the key store chosen and the view after warming and
  after the given previous outputs are arguments.  The result is the merged transaction
  (the source returns its hex text) with the flag \<^verbatim>\<open>complete\<close>.
\<close>

definition signrawtransaction ::
  "'ks sign_env \<Rightarrow> 'ks \<Rightarrow> coins_view \<Rightarrow> CMutableTransaction list \<Rightarrow> Value
     \<Rightarrow> error + CMutableTransaction \<times> bool" where
  "signrawtransaction env keystore view txVariants sighashtype =
     (case txVariants of
        [] \<Rightarrow> Inl (JSONRPCError RPC_DESERIALIZATION_ERROR ''Missing transaction'')
      | first # _ \<Rightarrow>
          (case sighash_param sighashtype of
             Inl e \<Rightarrow> Inl e
           | Inr nHashType \<Rightarrow> sign_loop env keystore view nHashType txVariants first))"

text \<open>
  \<^verbatim>\<open>signrawtokentransaction\<close>: the same loop with \<^verbatim>\<open>nHashType = SIGHASH_ALL\<close>; it returns
  the merged transaction only.
\<close>

definition signrawtokentransaction ::
  "'ks sign_env \<Rightarrow> 'ks \<Rightarrow> coins_view \<Rightarrow> CMutableTransaction list \<Rightarrow> error + CMutableTransaction" where
  "signrawtokentransaction env keystore view txVariants =
     (case txVariants of
        [] \<Rightarrow> Inl (JSONRPCError RPC_DESERIALIZATION_ERROR ''Missing transaction'')
      | first # _ \<Rightarrow>
          (case sign_loop env keystore view SIGHASH_ALL txVariants first of
             Inl e \<Rightarrow> Inl e
           | Inr st \<Rightarrow> Inr (fst st)))"

subsection \<open>Concrete collaborators and states for the examples\<close>

text \<open>
  A decoder that yields the empty transaction, a hash that is constantly 7, and a pool
  that admits everything.
\<close>

definition send_env0 :: send_env where
  "send_env0 =
     \<lparr>DecodeTx = (\<lambda>txData. Some empty_tx),
      GetHashTx = (\<lambda>tx. 7),
      AcceptToMemoryPool = (\<lambda>st tx fRejectInsaneFee. Accepted (st\<lparr>mempool := 7 # mempool st\<rparr>)),
      RejectText = (\<lambda>code reason. reason)\<rparr>"

text \<open>A node that holds transaction 7 in its memory pool and not in the chain.\<close>

definition st_in_pool :: node_state where
  "st_in_pool = \<lparr>mempool = [7], pcoinsTip = (\<lambda>h. None), synced = [], relayed = []\<rparr>"

text \<open>A node that holds transaction 7 confirmed at height 100.\<close>

definition st_in_chain :: node_state where
  "st_in_chain =
     \<lparr>mempool = [],
      pcoinsTip = (\<lambda>h. if h = 7 then Some \<lparr>coins_vout = [], nHeight = 100\<rparr> else None),
      synced = [], relayed = []\<rparr>"

text \<open>
  A builder whose addresses are the strings themselves, valid when they start with the
  letter B, with \<^verbatim>\<open>COIN\<close> = 100000000, a hash that is constantly 1 and amounts read from
  JSON integers.
\<close>

definition builder_env0 :: "string builder_env" where
  "builder_env0 =
     \<lparr>ParseHashO = (\<lambda>obj name. Inr 1),
      CBitcoinAddress = (\<lambda>s. s),
      IsValid = (\<lambda>a. a \<noteq> [] \<and> hd a = CHR ''B''),
      SetDestination = (\<lambda>a. [Op (OP_OTHER 0)]),
      AmountFromValue = (\<lambda>v. case v of int_type k \<Rightarrow> Inr (word_of_int k * 100000000)
                                 | _ \<Rightarrow> Inl (runtime_error ''value type is not real'')),
      COIN = 100000000\<rparr>"

text \<open>
  A signer that leaves the one-byte push \<open>01\<close>, a merge that keeps the first script
  unless it is empty, and a verifier that accepts any non-empty script.  The view knows
  output 0 of transaction 1 and nothing else.
\<close>

definition sign_env0 :: "unit sign_env" where
  "sign_env0 =
     \<lparr>SignSignature = (\<lambda>keystore prevPubKey tx i nHashType. [Push [1]]),
      CombineSignatures = (\<lambda>prevPubKey tx i sig1 sig2. if sig1 = [] then sig2 else sig1),
      VerifyScript = (\<lambda>sig prevPubKey tx i. sig \<noteq> [])\<rparr>"

definition view0 :: coins_view where
  "view0 = (\<lambda>h. if h = 1 then Some \<lparr>coins_vout = [Some \<lparr>nValue = 0, scriptPubKey = []\<rparr>], nHeight = 1\<rparr>
                 else None)"

text \<open>
  A transaction with two inputs: input 0 spends output 0 of the unknown transaction 2
  and carries the script push \<open>09\<close>; input 1 spends output 0 of transaction 1.
\<close>

definition tx_two_inputs :: CMutableTransaction where
  "tx_two_inputs =
     \<lparr>nVersion = 1,
      vin = [\<lparr>prevout = \<lparr>hash = 2, n = 0\<rparr>, scriptSig = [Push [9]], nSequence = - 1\<rparr>,
             \<lparr>prevout = \<lparr>hash = 1, n = 0\<rparr>, scriptSig = [], nSequence = - 1\<rparr>],
      vout = [], nLockTime = 0\<rparr>"

text \<open>A variant with the first of these inputs only.\<close>

definition tx_one_input :: CMutableTransaction where
  "tx_one_input =
     \<lparr>nVersion = 1,
      vin = [\<lparr>prevout = \<lparr>hash = 2, n = 0\<rparr>, scriptSig = [Push [9]], nSequence = - 1\<rparr>],
      vout = [], nLockTime = 0\<rparr>"

text \<open>
  A transaction whose input 0 spends the known output 0 of transaction 1 and whose
  input 1 spends an output of the unknown transaction 2, and a variant of it that has the
  first input only, with the script push \<open>07\<close>.
\<close>

definition tx_known_first :: CMutableTransaction where
  "tx_known_first =
     \<lparr>nVersion = 1,
      vin = [\<lparr>prevout = \<lparr>hash = 1, n = 0\<rparr>, scriptSig = [], nSequence = - 1\<rparr>,
             \<lparr>prevout = \<lparr>hash = 2, n = 0\<rparr>, scriptSig = [Push [9]], nSequence = - 1\<rparr>],
      vout = [], nLockTime = 0\<rparr>"

definition tx_known_only :: CMutableTransaction where
  "tx_known_only =
     \<lparr>nVersion = 1,
      vin = [\<lparr>prevout = \<lparr>hash = 1, n = 0\<rparr>, scriptSig = [Push [7]], nSequence = - 1\<rparr>],
      vout = [], nLockTime = 0\<rparr>"

text \<open>A transaction with the single input spending the known output, unsigned.\<close>

definition tx_known_empty :: CMutableTransaction where
  "tx_known_empty =
     \<lparr>nVersion = 1,
      vin = [\<lparr>prevout = \<lparr>hash = 1, n = 0\<rparr>, scriptSig = [], nSequence = - 1\<rparr>],
      vout = [], nLockTime = 0\<rparr>"

section \<open>Properties\<close>

subsection \<open>The hexadecimal encoder\<close>

lemma fifteen_mask: "(15 :: 'a::len word) = mask 4"
  by (simp add: mask_eq_exp_minus_1)

lemma firstHalf_eq: "firstHalf b = ucast (drop_bit 4 b)"
  unfolding firstHalf_def fifteen_mask
  apply (rule bit_word_eqI)
  apply (auto simp add: bit_simps min_def dest: bit_imp_le_length)
  subgoal for n by (cases "n = 3") auto
  subgoal for n by (cases "n = 3") (auto dest: bit_imp_le_length)
  done

lemma secondHalf_eq: "secondHalf b = ucast (b AND 0x0F)"
  unfolding secondHalf_def fifteen_mask
  by (rule bit_word_eqI) (auto simp add: bit_simps min_def dest: bit_imp_le_length)

lemma unat_firstHalf: "unat (firstHalf b) = unat b div 16"
proof -
  have "unat (drop_bit 4 b) < 2 ^ 32"
    using unsigned_less [of "drop_bit 4 b", where ?'a = nat] by simp
  then show ?thesis
    by (simp add: firstHalf_eq unsigned_ucast_eq take_bit_nat_eq_self unat_drop_bit_eq
        drop_bit_eq_div unat_div_distrib)
qed

lemma unat_secondHalf: "unat (secondHalf b) = unat b mod 16"
proof -
  have "b AND mask 4 = take_bit 4 b"
    by (simp add: take_bit_eq_mask)
  moreover have "unat (take_bit 4 b) < 2 ^ 32"
    using unsigned_less [of "take_bit 4 b", where ?'a = nat] by simp
  ultimately show ?thesis
    unfolding secondHalf_eq fifteen_mask
    by (simp add: unsigned_ucast_eq take_bit_nat_eq_self unsigned_take_bit_eq
        take_bit_eq_mod unat_mod_distrib)
qed

lemma hexDigitChain_nibble:
  assumes "unat h < 16"
  shows "hexDigitChain h = [hexmap ! unat h]"
proof -
  define n where "n = unat h"
  have h: "h = of_nat n" by (simp add: n_def)
  have "n \<in> {0, 1, 2, 3, 4, 5, 6, 7, 8, 9, 10, 11, 12, 13, 14, 15}"
    using assms unfolding n_def by (simp only: insert_iff empty_iff) arith
  then show ?thesis
    unfolding h by (auto simp add: hexDigitChain_def hexmap_def)
qed

lemma GetHex_foldl:
  "foldl (\<lambda>s character.
            s @ hexDigitChain (firstHalf character) @ hexDigitChain (secondHalf character))
     acc c = acc @ HexStr_spec c"
proof (induction c arbitrary: acc)
  case Nil
  show ?case by (simp add: HexStr_spec_def)
next
  case (Cons b c)
  have "unat b < 256" using unsigned_less [of b, where ?'a = nat] by simp
  then have hi: "unat (firstHalf b) < 16" by (simp add: unat_firstHalf)
  have lo: "unat (secondHalf b) < 16" by (simp add: unat_secondHalf)
  show ?case
    using Cons.IH [of "acc @ hexDigitChain (firstHalf b) @ hexDigitChain (secondHalf b)"]
    by (simp add: HexStr_spec_def hexDigitChain_nibble [OF hi] hexDigitChain_nibble [OF lo]
        unat_firstHalf unat_secondHalf)
qed

text \<open>
  Claim C10.  For every byte vector \<open>v\<close>, \<^verbatim>\<open>GetHexStringFromBytes(v)\<close> is the standard
  lowercase hexadecimal encoding of \<open>v\<close>: two lowercase digits per byte, high nibble
  first, bytes in order.  The sign extension of \<^verbatim>\<open>char\<close> does not leak into the digits.
\<close>

theorem GetHexStringFromBytes_is_HexStr: "GetHexStringFromBytes v = HexStr_spec v"
  unfolding GetHexStringFromBytes_def by (simp add: GetHex_foldl)

subsection \<open>inittoken: the funding output index\<close>

lemma scan_outputs_takeWhile:
  "scan_outputs c outs k = k + length (takeWhile (\<lambda>out. nValue out \<noteq> c) outs)"
  by (induction outs arbitrary: k) simp_all

lemma drop_takeWhile_cases:
  "(case drop (length (takeWhile P xs)) xs of [] \<Rightarrow> length (takeWhile P xs) = length xs
      | x # _ \<Rightarrow> \<not> P x)"
  by (induction xs) (auto split: list.splits)

lemma list_all_take_takeWhile:
  "list_all P (take (length (takeWhile P xs)) xs)"
  by (induction xs) simp_all

lemma list_all_iff_takeWhile_length:
  "list_all P xs = (length (takeWhile P xs) = length xs)"
  by (induction xs) simp_all

text \<open>
  Claim C3, as the code has it.  The index chosen by \<^verbatim>\<open>inittoken\<close> is the number of
  leading outputs of the funding transaction whose amount differs from \<open>1001 * coin\<close>
  (\<open>coin\<close> standing for the constant \<^verbatim>\<open>COIN\<close>):
  no output before the chosen index has that amount; if some output has that amount the
  index is that of the first one; and if none has, the index is the number of outputs
  (one past the last output), which is 0 only for a transaction without outputs.
\<close>

theorem inittoken_nOutput_first_match_or_size:
  "inittoken_nOutput coin tx = length (takeWhile (\<lambda>out. nValue out \<noteq> 1001 * coin) (vout tx))
   \<and> list_all (\<lambda>out. nValue out \<noteq> 1001 * coin) (take (inittoken_nOutput coin tx) (vout tx))
   \<and> (case drop (inittoken_nOutput coin tx) (vout tx) of
         [] \<Rightarrow> inittoken_nOutput coin tx = length (vout tx)
       | out # _ \<Rightarrow> nValue out = 1001 * coin)
   \<and> (list_all (\<lambda>out. nValue out \<noteq> 1001 * coin) (vout tx)
        = (inittoken_nOutput coin tx = length (vout tx)))"
proof -
  let ?P = "\<lambda>out. nValue out \<noteq> 1001 * coin"
  have k: "inittoken_nOutput coin tx = length (takeWhile ?P (vout tx))"
    by (simp add: inittoken_nOutput_def scan_outputs_takeWhile)
  have at: "(case drop (length (takeWhile ?P (vout tx))) (vout tx) of
         [] \<Rightarrow> length (takeWhile ?P (vout tx)) = length (vout tx)
       | out # _ \<Rightarrow> nValue out = 1001 * coin)"
    using drop_takeWhile_cases [of ?P "vout tx"] length_takeWhile_le [of ?P "vout tx"]
    by (auto split: list.splits)
  show ?thesis
    unfolding k
    using list_all_take_takeWhile [of ?P "vout tx"] at
      list_all_iff_takeWhile_length [of ?P "vout tx"]
    by blast
qed

text \<open>
  The claim as written fails: with a single output of 5 base units, no output has the
  amount sought, and the index chosen is 1, not 0.
\<close>

theorem inittoken_nOutput_not_zero_counterexample:
  "nValue \<lparr>nValue = 5, scriptPubKey = []\<rparr> \<noteq> 1001 * (100000000 :: int64_t)
   \<and> inittoken_nOutput 100000000 (empty_tx\<lparr>vout := [\<lparr>nValue = 5, scriptPubKey = []\<rparr>]\<rparr>) = 1"
  by (simp add: inittoken_nOutput_def)

subsection \<open>createtoken / CreateToken: what is hashed\<close>

lemma token_preimage_no_NUL:
  "0 \<in> set buffer \<Longrightarrow> 64 \<le> length (takeWhile (\<lambda>c. c \<noteq> 0) buffer @ previousTxId) \<Longrightarrow>
   token_preimage buffer previousTxId
     = Inr (take 64 (takeWhile (\<lambda>c. c \<noteq> 0) buffer @ previousTxId))"
  by (simp add: token_preimage_def string_of_buffer_def write_64_def)

lemma replicate_numeral: "replicate (numeral k) x = x # replicate (pred_numeral k) x"
  by (simp add: numeral_eq_Suc)

text \<open>
  Claim C1 at a file that holds a zero byte.  The file is the three bytes \<open>41 00 42\<close>
  and the previous transaction id is 64 characters \<open>0\<close>.  The bytes hashed are the
  byte \<open>41\<close> followed by 63 characters of the id: the file is cut at its zero byte.  The
  first 64 bytes of the file content followed by the id are something else.
\<close>

theorem CreateToken_preimage_cut_at_NUL:
  "token_preimage [0x41, 0x00, 0x42] (replicate 64 0x30) = Inr (0x41 # replicate 63 0x30)
   \<and> token_digest env [0x41, 0x00, 0x42] (replicate 64 0x30)
        = Inr (GetHash env 1 1 (0x41 # replicate 63 0x30))
   \<and> take 64 ([0x41, 0x00, 0x42] @ replicate 64 (0x30 :: byte)) = [0x41, 0x00, 0x42] @ replicate 61 0x30
   \<and> token_preimage [0x41, 0x00, 0x42] (replicate 64 0x30)
        \<noteq> Inr (take 64 ([0x41, 0x00, 0x42] @ replicate 64 0x30))"
  by (simp add: token_digest_def token_preimage_def string_of_buffer_def write_64_def
      replicate_numeral [of _ "0x30 :: byte"])

subsection \<open>sendrawtransaction: transactions the node already knows\<close>

lemma ParseHexV_00: "ParseHexV (str_type ''00'') ''parameter'' = Inr [0]"
  by (simp add: ParseHexV_def IsHex_def HexDigit_def)

text \<open>
  Claim C2, as the code has it.  For a transaction that decodes: when its identifier is
  confirmed at a height below 1000000000 the call fails with "transaction already in
  block chain" and leaves the state as it was (nothing admitted, nothing relayed),
  whether or not the pool holds it too; when the pool holds it and the chain does not,
  the call admits nothing, relays the transaction once more and returns its identifier.
\<close>

theorem sendrawtransaction_known_transaction:
  assumes "ParseHexV hexstring ''parameter'' = Inr txData"
    and "DecodeTx env txData = Some tx"
  shows "(fHaveChain st (GetHashTx env tx) \<longrightarrow>
            sendrawtransaction env st hexstring fOverrideFees = (Inl already_in_chain, st))
       \<and> (fHaveMempool st (GetHashTx env tx) \<and> \<not> fHaveChain st (GetHashTx env tx) \<longrightarrow>
            sendrawtransaction env st hexstring fOverrideFees
              = (Inr (GetHashTx env tx), st\<lparr>relayed := relayed st @ [GetHashTx env tx]\<rparr>))"
  using assms by (simp add: sendrawtransaction_def RelayTransaction_def Let_def)

theorem sendrawtransaction_known_transaction_witness:
  "sendrawtransaction send_env0 st_in_chain (str_type ''00'') False = (Inl already_in_chain, st_in_chain)
   \<and> sendrawtransaction send_env0 st_in_pool (str_type ''00'') False
        = (Inr 7, st_in_pool\<lparr>relayed := [7]\<rparr>)"
proof -
  have d: "DecodeTx send_env0 [0] = Some empty_tx"
    by (simp add: send_env0_def)
  have h: "GetHashTx send_env0 empty_tx = 7"
    by (simp add: send_env0_def)
  have c: "fHaveChain st_in_chain 7"
    by (simp add: fHaveChain_def st_in_chain_def)
  have p: "fHaveMempool st_in_pool 7 \<and> \<not> fHaveChain st_in_pool 7"
    by (simp add: fHaveMempool_def fHaveChain_def st_in_pool_def)
  have r: "relayed st_in_pool = []"
    by (simp add: st_in_pool_def)
  show ?thesis
    using sendrawtransaction_known_transaction [OF ParseHexV_00 d, of st_in_chain False]
      sendrawtransaction_known_transaction [OF ParseHexV_00 d, of st_in_pool False]
      c p
    by (simp add: h r)
qed

text \<open>
  The claim as written fails for a transaction that is only in the memory pool: the call
  does not fail, it returns the identifier and relays the transaction again.
\<close>

theorem sendrawtransaction_pool_relay_counterexample:
  "fHaveMempool st_in_pool 7
   \<and> fst (sendrawtransaction send_env0 st_in_pool (str_type ''00'') False) = Inr 7
   \<and> relayed (snd (sendrawtransaction send_env0 st_in_pool (str_type ''00'') False)) = [7]
   \<and> relayed st_in_pool = []"
  by (simp add: sendrawtransaction_def ParseHexV_00 send_env0_def st_in_pool_def
      fHaveMempool_def fHaveChain_def RelayTransaction_def Let_def)

subsection \<open>createrawtransaction: data outputs and address errors\<close>

lemma split_colon_nonempty: "split_colon s \<noteq> []"
  by (induction s) (auto split: list.splits)











lemma ParseHex_00010203: "ParseHex ''00010203'' = [0, 1, 2, 3]"
  by (simp add: HexDigit_def)





lemma add_outputs_append:
  "add_outputs env (xs @ ys) acc =
     (case add_outputs env xs acc of Inl e \<Rightarrow> Inl e | Inr acc' \<Rightarrow> add_outputs env ys acc')"
  by (induction xs arbitrary: acc) (simp_all split: sum.splits)

lemma add_output_Inr:
  assumes "add_output env s (rawTx, setAddress) = Inr (rawTx', setAddress')"
  shows "if fst s = ''data'' then setAddress' = setAddress
         else IsValid env (CBitcoinAddress env (fst s))
              \<and> CBitcoinAddress env (fst s) \<notin> set setAddress
              \<and> setAddress' = CBitcoinAddress env (fst s) # setAddress"
  using assms
  by (auto simp add: add_output_def Let_def split: if_splits Value.splits sum.splits)

lemma add_outputs_Inr:
  assumes "add_outputs env xs (rawTx, setAddress) = Inr (rawTx', setAddress')"
  shows "(\<forall>s\<in>set xs. fst s \<noteq> ''data'' \<longrightarrow> IsValid env (CBitcoinAddress env (fst s)))
       \<and> distinct (filter (\<lambda>k. k \<noteq> ''data'') (map fst xs))
       \<and> set setAddress' = set setAddress
            \<union> CBitcoinAddress env ` {k \<in> fst ` set xs. k \<noteq> ''data''}
       \<and> (\<forall>k \<in> fst ` set xs. k \<noteq> ''data'' \<longrightarrow> CBitcoinAddress env k \<notin> set setAddress)"
  using assms
proof (induction xs arbitrary: rawTx setAddress)
  case Nil
  then show ?case by simp
next
  case (Cons s xs)
  from Cons.prems obtain rawTx1 setAddress1 where
    step: "add_output env s (rawTx, setAddress) = Inr (rawTx1, setAddress1)"
    and rest: "add_outputs env xs (rawTx1, setAddress1) = Inr (rawTx', setAddress')"
    by (auto split: sum.splits)
  note s = add_output_Inr [OF step]
  note IH = Cons.IH [OF rest]
  show ?case
  proof (cases "fst s = ''data''")
    case True
    with s IH show ?thesis by auto
  next
    case False
    with s have v: "IsValid env (CBitcoinAddress env (fst s))"
      and fresh: "CBitcoinAddress env (fst s) \<notin> set setAddress"
      and sa: "setAddress1 = CBitcoinAddress env (fst s) # setAddress"
      by simp_all
    from IH sa have later: "\<forall>k \<in> fst ` set xs. k \<noteq> ''data'' \<longrightarrow> CBitcoinAddress env k \<noteq> CBitcoinAddress env (fst s)"
      by auto
    then have "fst s \<notin> set (filter (\<lambda>k. k \<noteq> ''data'') (map fst xs))"
      using False by auto
    with False v fresh sa IH show ?thesis by auto
  qed
qed


text \<open>
  Claim C7, as the code has it.  The entries are checked one after the other and the
  first failure ends the call.  Any output spec with an invalid address key or a repeated
  address key makes the call fail, and no transaction is returned.  When the entries
  before an address key went through: an invalid key fails with "Invalid Smileycoin
  address", and a valid key that repeats an earlier one fails with "duplicated address".
\<close>

theorem createrawtransaction_address_errors:
  "((\<exists>s\<in>set sendTo. fst s \<noteq> ''data'' \<and> \<not> IsValid env (CBitcoinAddress env (fst s)))
      \<or> \<not> distinct (filter (\<lambda>k. k \<noteq> ''data'') (map fst sendTo))
     \<longrightarrow> (\<exists>e. createrawtransaction env inputs sendTo = Inl e))
   \<and> (add_inputs env inputs empty_tx = Inr rawTx \<and> add_outputs env pre (rawTx, []) = Inr acc
        \<and> name \<noteq> ''data'' \<and> \<not> IsValid env (CBitcoinAddress env name)
     \<longrightarrow> createrawtransaction env inputs (pre @ (name, v) # post) = Inl (invalid_address name))
   \<and> (add_inputs env inputs empty_tx = Inr rawTx \<and> add_outputs env pre (rawTx, []) = Inr acc
        \<and> name \<noteq> ''data'' \<and> IsValid env (CBitcoinAddress env name) \<and> name \<in> fst ` set pre
     \<longrightarrow> createrawtransaction env inputs (pre @ (name, v) # post) = Inl (duplicated_address name))"
proof (intro conjI impI)
  assume bad: "(\<exists>s\<in>set sendTo. fst s \<noteq> ''data'' \<and> \<not> IsValid env (CBitcoinAddress env (fst s)))
      \<or> \<not> distinct (filter (\<lambda>k. k \<noteq> ''data'') (map fst sendTo))"
  show "\<exists>e. createrawtransaction env inputs sendTo = Inl e"
  proof (cases "createrawtransaction env inputs sendTo")
    case (Inl e)
    then show ?thesis by blast
  next
    case (Inr tx)
    then obtain rawTx0 acc0 where "add_outputs env sendTo (rawTx0, []) = Inr acc0"
      by (auto simp add: createrawtransaction_def split: sum.splits)
    then have "add_outputs env sendTo (rawTx0, []) = Inr (fst acc0, snd acc0)"
      by simp
    from add_outputs_Inr [OF this] bad show ?thesis by blast
  qed
next
  assume a: "add_inputs env inputs empty_tx = Inr rawTx \<and> add_outputs env pre (rawTx, []) = Inr acc
        \<and> name \<noteq> ''data'' \<and> \<not> IsValid env (CBitcoinAddress env name)"
  then have "add_output env (name, v) acc = Inl (invalid_address name)"
    by (cases acc) (simp add: add_output_def)
  with a show "createrawtransaction env inputs (pre @ (name, v) # post) = Inl (invalid_address name)"
    by (simp add: createrawtransaction_def add_outputs_append)
next
  assume a: "add_inputs env inputs empty_tx = Inr rawTx \<and> add_outputs env pre (rawTx, []) = Inr acc
        \<and> name \<noteq> ''data'' \<and> IsValid env (CBitcoinAddress env name) \<and> name \<in> fst ` set pre"
  then have "add_outputs env pre (rawTx, []) = Inr (fst acc, snd acc)"
    by simp
  from add_outputs_Inr [OF this] a have "CBitcoinAddress env name \<in> set (snd acc)"
    by auto
  with a have "add_output env (name, v) acc = Inl (duplicated_address name)"
    by (cases acc) (simp add: add_output_def)
  with a show "createrawtransaction env inputs (pre @ (name, v) # post) = Inl (duplicated_address name)"
    by (simp add: createrawtransaction_def add_outputs_append)
qed

text \<open>The two errors at concrete output specs.\<close>

lemma builder_env0_B1:
  "add_outputs builder_env0 [(''B1'', int_type 1)] (empty_tx, [])
     = Inr (empty_tx\<lparr>vout := [\<lparr>nValue = 100000000, scriptPubKey = [Op (OP_OTHER 0)]\<rparr>]\<rparr>, [''B1''])"
  by (simp add: add_output_def builder_env0_def empty_tx_def)

theorem createrawtransaction_address_errors_witness:
  "createrawtransaction builder_env0 [] [(''B1'', int_type 1), (''B1'', int_type 2)]
     = Inl (duplicated_address ''B1'')
   \<and> createrawtransaction builder_env0 [] [(''x'', int_type 1)] = Inl (invalid_address ''x'')
   \<and> (\<exists>e. createrawtransaction builder_env0 [] [(''B1'', int_type 1), (''B1'', int_type 2)] = Inl e)"
proof -
  have i: "add_inputs builder_env0 [] empty_tx = Inr empty_tx" by simp
  have e: "add_outputs builder_env0 [] (empty_tx, []) = Inr (empty_tx, [])" by simp
  have v: "IsValid builder_env0 (CBitcoinAddress builder_env0 ''B1'')"
    by (simp add: builder_env0_def)
  have nv: "\<not> IsValid builder_env0 (CBitcoinAddress builder_env0 ''x'')"
    by (simp add: builder_env0_def)
  have d: "\<not> distinct (filter (\<lambda>k. k \<noteq> ''data'') (map fst [(''B1'', int_type 1), (''B1'', int_type 2)]))"
    by simp
  show ?thesis
    using createrawtransaction_address_errors
        [of "[(''B1'', int_type 1), (''B1'', int_type 2)]" builder_env0 "[]" empty_tx
            "[(''B1'', int_type 1)]" _ "''B1''" "int_type 2" "[]"]
      createrawtransaction_address_errors
        [of "[]" builder_env0 "[]" empty_tx "[]" "(empty_tx, [])" "''x''" "int_type 1" "[]"]
      i e v nv d builder_env0_B1
    by simp
qed

text \<open>
  The claim as written promises \<open>InvalidAddress\<close> for every spec with an invalid key.
  With a repeated valid key before the invalid one, the call fails with the duplicate
  error instead.
\<close>

theorem createrawtransaction_first_error_counterexample:
  "\<not> IsValid builder_env0 (CBitcoinAddress builder_env0 ''x'')
   \<and> createrawtransaction builder_env0 []
        [(''B1'', int_type 1), (''B1'', int_type 2), (''x'', int_type 1)]
       = Inl (duplicated_address ''B1'')
   \<and> duplicated_address ''B1'' \<noteq> invalid_address ''x''"
  by (simp add: createrawtransaction_def add_output_def builder_env0_def
      duplicated_address_def invalid_address_def)

subsection \<open>The signing loop\<close>

text \<open>What one assignment to an unlocking script leaves alone.\<close>

lemma map_update_same: "(map f xs)[i := f (xs ! i)] = map f xs"
  by (cases "i < length xs") (simp_all add: list_eq_iff_nth_eq nth_list_update)

lemma set_scriptSig_frame:
  "length (vin (set_scriptSig i s tx)) = length (vin tx)"
  "map prevout (vin (set_scriptSig i s tx)) = map prevout (vin tx)"
  "j \<noteq> i \<Longrightarrow> vin (set_scriptSig i s tx) ! j = vin tx ! j"
  "vout (set_scriptSig i s tx) = vout tx"
  by (simp_all add: set_scriptSig_def map_update map_update_same)


lemma clear_and_sign_frame:
  "length (vin (clear_and_sign env ks ht ppk i tx)) = length (vin tx)"
  "map prevout (vin (clear_and_sign env ks ht ppk i tx)) = map prevout (vin tx)"
  "j \<noteq> i \<Longrightarrow> vin (clear_and_sign env ks ht ppk i tx) ! j = vin tx ! j"
  "vout (clear_and_sign env ks ht ppk i tx) = vout tx"
  by (simp_all add: clear_and_sign_def Let_def set_scriptSig_frame)

lemma combine_variants_frame:
  assumes "combine_variants env ppk i vs tx = Inr merged"
  shows "length (vin merged) = length (vin tx)
       \<and> map prevout (vin merged) = map prevout (vin tx)
       \<and> (\<forall>j. j \<noteq> i \<longrightarrow> vin merged ! j = vin tx ! j)
       \<and> vout merged = vout tx"
  using assms
proof (induction vs arbitrary: tx)
  case Nil
  then show ?case by simp
next
  case (Cons txv vs)
  then show ?case
    by (auto simp add: set_scriptSig_frame split: if_splits dest!: Cons.IH)
qed

lemma combine_variants_Inl_iff:
  "(\<exists>e. combine_variants env ppk i vs tx = Inl e) = (\<exists>txv\<in>set vs. length (vin txv) \<le> i)"
  by (induction vs arbitrary: tx) (auto simp add: not_less)

lemma combine_variants_Inl_error:
  "combine_variants env ppk i vs tx = Inl e \<Longrightarrow> e = variant_out_of_range"
  by (induction vs arbitrary: tx) (auto split: if_splits)

lemma sign_input_unresolved:
  "prev_output view (vin tx ! i) = None \<Longrightarrow>
   sign_input env ks view ht vs i (tx, c) = Inr (tx, False)"
  by (simp add: sign_input_def)

lemma sign_input_frame:
  assumes "sign_input env ks view ht vs i (tx, c) = Inr (tx', c')"
  shows "length (vin tx') = length (vin tx)
       \<and> map prevout (vin tx') = map prevout (vin tx)
       \<and> (\<forall>j. j \<noteq> i \<longrightarrow> vin tx' ! j = vin tx ! j)
       \<and> vout tx' = vout tx
       \<and> (c' \<longrightarrow> c)"
  using assms
  by (auto simp add: sign_input_def Let_def clear_and_sign_frame
      split: option.splits sum.splits if_splits dest!: combine_variants_frame)

lemma prev_output_cong:
  "prevout a = prevout b \<Longrightarrow> prev_output view a = prev_output view b"
  by (simp only: prev_output_def)

lemma nth_prevout_eq:
  assumes "map prevout xs = map prevout ys" and "i < length xs"
  shows "prevout (xs ! i) = prevout (ys ! i)"
proof -
  have "length xs = length ys"
    using assms(1) by (rule map_eq_imp_length_eq)
  then show ?thesis
    using assms nth_map [of i xs prevout] nth_map [of i ys prevout] by simp
qed


text \<open>
  When the body of the loop stops: the input resolves and some variant has no input at
  that index.
\<close>

lemma sign_input_Inl_iff:
  "(\<exists>e. sign_input env ks view ht vs i (tx, c) = Inl e)
     = (prev_output view (vin tx ! i) \<noteq> None \<and> (\<exists>txv\<in>set vs. length (vin txv) \<le> i))"
proof (cases "prev_output view (vin tx ! i)")
  case None
  then show ?thesis by (simp add: sign_input_def)
next
  case (Some prev)
  have "(\<exists>e. sign_input env ks view ht vs i (tx, c) = Inl e)
      = (\<exists>e. combine_variants env (scriptPubKey prev) i vs
                 (clear_and_sign env ks ht (scriptPubKey prev) i tx) = Inl e)"
    using Some by (auto simp add: sign_input_def Let_def split: sum.splits)
  then show ?thesis
    using Some by (simp add: combine_variants_Inl_iff)
qed

lemma sign_input_Inl_error:
  "sign_input env ks view ht vs i st = Inl e \<Longrightarrow> e = variant_out_of_range"
  by (auto simp add: sign_input_def Let_def split: prod.splits option.splits sum.splits if_splits
      dest: combine_variants_Inl_error)

lemma sign_inputs_Inl_error:
  "sign_inputs env ks view ht vs is st = Inl e \<Longrightarrow> e = variant_out_of_range"
  by (induction "is" arbitrary: st) (auto split: sum.splits dest: sign_input_Inl_error)

text \<open>
  Invariants of the loop: the number of inputs, their previous-output references and the
  outputs stay as they are, and the flag never goes back to true.
\<close>

lemma sign_inputs_frame:
  assumes "sign_inputs env ks view ht vs is (tx, c) = Inr (tx', c')"
  shows "length (vin tx') = length (vin tx)
       \<and> map prevout (vin tx') = map prevout (vin tx)
       \<and> (\<forall>j. j \<notin> set is \<longrightarrow> vin tx' ! j = vin tx ! j)
       \<and> vout tx' = vout tx
       \<and> (c' \<longrightarrow> c)"
  using assms
proof (induction "is" arbitrary: tx c)
  case Nil
  then show ?case by simp
next
  case (Cons i "is")
  from Cons.prems obtain tx1 c1 where
    step: "sign_input env ks view ht vs i (tx, c) = Inr (tx1, c1)"
    and rest: "sign_inputs env ks view ht vs is (tx1, c1) = Inr (tx', c')"
    by (auto split: sum.splits)
  from sign_input_frame [OF step] Cons.IH [OF rest] show ?case
    by auto
qed

lemma sign_inputs_unresolved:
  assumes "sign_inputs env ks view ht vs is (tx, c) = Inr (tx', c')"
    and "j < length (vin tx)"
    and "prev_output view (vin tx ! j) = None"
  shows "vin tx' ! j = vin tx ! j \<and> (j \<in> set is \<longrightarrow> \<not> c')"
  using assms
proof (induction "is" arbitrary: tx c)
  case Nil
  then show ?case by simp
next
  case (Cons i "is")
  from Cons.prems(1) obtain tx1 c1 where
    step: "sign_input env ks view ht vs i (tx, c) = Inr (tx1, c1)"
    and rest: "sign_inputs env ks view ht vs is (tx1, c1) = Inr (tx', c')"
    by (auto split: sum.splits)
  have same: "vin tx1 ! j = vin tx ! j \<and> (i = j \<longrightarrow> \<not> c1)"
  proof (cases "i = j")
    case True
    with step Cons.prems(3) show ?thesis
      by (simp add: sign_input_unresolved)
  next
    case False
    with sign_input_frame [OF step] show ?thesis by simp
  qed
  have len: "j < length (vin tx1)"
    using sign_input_frame [OF step] Cons.prems(2) by simp
  have unres: "prev_output view (vin tx1 ! j) = None"
    using same Cons.prems(3) by simp
  from Cons.IH [OF rest len unres] have IH: "vin tx' ! j = vin tx1 ! j \<and> (j \<in> set is \<longrightarrow> \<not> c')" .
  from sign_inputs_frame [OF rest] have mono: "c' \<longrightarrow> c1" by simp
  from same IH mono show ?case by auto
qed

lemma sign_inputs_Inl_iff:
  assumes "\<forall>i\<in>set is. i < length (vin tx)"
  shows "(\<exists>e. sign_inputs env ks view ht vs is (tx, c) = Inl e)
       = (\<exists>i\<in>set is. prev_output view (vin tx ! i) \<noteq> None \<and> (\<exists>txv\<in>set vs. length (vin txv) \<le> i))"
  using assms
proof (induction "is" arbitrary: tx c)
  case Nil
  then show ?case by simp
next
  case (Cons i "is")
  show ?case
  proof (cases "sign_input env ks view ht vs i (tx, c)")
    case (Inl e)
    then have "prev_output view (vin tx ! i) \<noteq> None \<and> (\<exists>txv\<in>set vs. length (vin txv) \<le> i)"
      using sign_input_Inl_iff [of env ks view ht vs i tx c] by blast
    with Inl show ?thesis by auto
  next
    case (Inr st1)
    obtain tx1 c1 where st1: "st1 = (tx1, c1)" by (cases st1)
    note step = Inr [unfolded st1]
    have here: "\<not> (prev_output view (vin tx ! i) \<noteq> None \<and> (\<exists>txv\<in>set vs. length (vin txv) \<le> i))"
      using sign_input_Inl_iff [of env ks view ht vs i tx c] step by auto
    have fr: "length (vin tx1) = length (vin tx)" "map prevout (vin tx1) = map prevout (vin tx)"
      using sign_input_frame [OF step] by simp_all
    have bound: "\<forall>k\<in>set is. k < length (vin tx1)"
      using Cons.prems fr by simp
    have res: "\<And>k. k \<in> set is \<Longrightarrow> prev_output view (vin tx1 ! k) = prev_output view (vin tx ! k)"
    proof -
      fix k assume "k \<in> set is"
      then have "k < length (vin tx1)" using bound by simp
      then have "prevout (vin tx1 ! k) = prevout (vin tx ! k)"
        using fr(2) by (intro nth_prevout_eq)
      then show "prev_output view (vin tx1 ! k) = prev_output view (vin tx ! k)"
        by (rule prev_output_cong)
    qed
    have "(\<exists>e. sign_inputs env ks view ht vs (i # is) (tx, c) = Inl e)
        = (\<exists>e. sign_inputs env ks view ht vs is (tx1, c1) = Inl e)"
      using step by simp
    also have "\<dots> = (\<exists>k\<in>set is. prev_output view (vin tx1 ! k) \<noteq> None
                      \<and> (\<exists>txv\<in>set vs. length (vin txv) \<le> k))"
      using Cons.IH [OF bound] .
    also have "\<dots> = (\<exists>k\<in>set is. prev_output view (vin tx ! k) \<noteq> None
                      \<and> (\<exists>txv\<in>set vs. length (vin txv) \<le> k))"
      using res by auto
    finally show ?thesis using here by auto
  qed
qed


lemma sign_loop_returns:
  assumes "\<forall>txv\<in>set vs. length (vin tx) \<le> length (vin txv)"
  shows "\<exists>merged fComplete. sign_loop env ks view ht vs tx = Inr (merged, fComplete)"
proof (cases "sign_loop env ks view ht vs tx")
  case (Inl e)
  have "\<forall>i\<in>set [0 ..< length (vin tx)]. i < length (vin tx)" by simp
  from sign_inputs_Inl_iff [OF this, of env ks view ht vs True] Inl
  obtain i txv where "i < length (vin tx)" "txv \<in> set vs" "length (vin txv) \<le> i"
    by (auto simp add: sign_loop_def)
  with assms show ?thesis by fastforce
next
  case (Inr st)
  then show ?thesis by (cases st) simp
qed

lemma sign_loop_unresolved:
  assumes "sign_loop env ks view ht vs tx = Inr (merged, fComplete)"
    and "j < length (vin tx)"
    and "prev_output view (vin tx ! j) = None"
  shows "vin merged ! j = vin tx ! j \<and> \<not> fComplete"
  using sign_inputs_unresolved [of env ks view ht vs "[0 ..< length (vin tx)]" tx True merged fComplete j]
    assms by (simp add: sign_loop_def)


lemma sign_env0_loop_two:
  "sign_loop sign_env0 () view0 SIGHASH_ALL [tx_two_inputs, tx_one_input] tx_two_inputs
     = Inl variant_out_of_range"
  by (simp add: sign_loop_def sign_input_def prev_output_def view0_def tx_two_inputs_def
      tx_one_input_def IsAvailable_def clear_and_sign_def set_scriptSig_def sign_env0_def
      fHashSingle_def SIGHASH_ALL_def SIGHASH_SINGLE_def SIGHASH_ANYONECANPAY_def Let_def)


lemmas sign_eval =
  sign_loop_def sign_input_def prev_output_def view0_def tx_two_inputs_def
  tx_one_input_def IsAvailable_def clear_and_sign_def set_scriptSig_def sign_env0_def
  fHashSingle_def SIGHASH_ALL_def SIGHASH_SINGLE_def SIGHASH_ANYONECANPAY_def Let_def




















text \<open>
  Two calls: a single resolved input that \<open>SINGLE\<close> leaves unsigned fails verification;
  a second input that does not resolve is returned untouched although the second variant
  is shorter than the first.
\<close>

lemmas spec_eval =
  merged_input_spec_def merge_all_spec_def merge_one_spec_def input_complete_spec_def
  sighash_param_def mapSigHashValues_def SIGHASH_NONE_def tx_known_first_def tx_known_only_def
  tx_known_empty_def












text \<open>
  Claim C8.  In the transaction returned by \<^verbatim>\<open>signrawtransaction\<close> (and by
  \<^verbatim>\<open>signrawtokentransaction\<close>), every input of the first variant whose previous output
  does not resolve is the input of the first variant unchanged, its unlocking script
  included.  An input whose script the loop body changed had a previous output that
  resolved.  The call returns whenever the hash type is accepted and no variant is shorter
  than the first.
\<close>

theorem unresolved_input_script_preserved:
  "(signrawtransaction env ks view (first # rest) sighashtype = Inr (final, fComplete)
      \<and> i < length (vin first) \<and> prev_output view (vin first ! i) = None \<longrightarrow>
        scriptSig (vin final ! i) = scriptSig (vin first ! i) \<and> vin final ! i = vin first ! i)
   \<and> (signrawtokentransaction env ks view (first # rest) = Inr final
      \<and> i < length (vin first) \<and> prev_output view (vin first ! i) = None \<longrightarrow>
        scriptSig (vin final ! i) = scriptSig (vin first ! i) \<and> vin final ! i = vin first ! i)
   \<and> (sign_input env ks view ht vs i (tx, c) = Inr (tx', c')
      \<and> scriptSig (vin tx' ! i) \<noteq> scriptSig (vin tx ! i) \<longrightarrow>
        prev_output view (vin tx ! i) \<noteq> None)
   \<and> (sighash_param sighashtype = Inr ht
      \<and> (\<forall>txv\<in>set (first # rest). length (vin first) \<le> length (vin txv)) \<longrightarrow>
        (\<exists>final fComplete.
           signrawtransaction env ks view (first # rest) sighashtype = Inr (final, fComplete)))"
proof (intro conjI impI)
  assume a: "signrawtransaction env ks view (first # rest) sighashtype = Inr (final, fComplete)
      \<and> i < length (vin first) \<and> prev_output view (vin first ! i) = None"
  then obtain nHashType where
    "sign_loop env ks view nHashType (first # rest) first = Inr (final, fComplete)"
    by (auto simp add: signrawtransaction_def split: sum.splits)
  from sign_loop_unresolved [OF this] a show "vin final ! i = vin first ! i"
    by blast
  then show "scriptSig (vin final ! i) = scriptSig (vin first ! i)"
    by simp
next
  assume a: "signrawtokentransaction env ks view (first # rest) = Inr final
      \<and> i < length (vin first) \<and> prev_output view (vin first ! i) = None"
  then obtain fComplete where
    "sign_loop env ks view SIGHASH_ALL (first # rest) first = Inr (final, fComplete)"
    by (auto simp add: signrawtokentransaction_def split: sum.splits)
  from sign_loop_unresolved [OF this] a show "vin final ! i = vin first ! i"
    by blast
  then show "scriptSig (vin final ! i) = scriptSig (vin first ! i)"
    by simp
next
  assume a: "sign_input env ks view ht vs i (tx, c) = Inr (tx', c')
      \<and> scriptSig (vin tx' ! i) \<noteq> scriptSig (vin tx ! i)"
  show "prev_output view (vin tx ! i) \<noteq> None"
  proof
    assume "prev_output view (vin tx ! i) = None"
    then have "sign_input env ks view ht vs i (tx, c) = Inr (tx, False)"
      by (rule sign_input_unresolved)
    with a show False by auto
  qed
next
  assume a: "sighash_param sighashtype = Inr ht
      \<and> (\<forall>txv\<in>set (first # rest). length (vin first) \<le> length (vin txv))"
  then obtain final fComplete where
    "sign_loop env ks view ht (first # rest) first = Inr (final, fComplete)"
    using sign_loop_returns [of "first # rest" first env ks view ht] by blast
  with a show "\<exists>final fComplete.
           signrawtransaction env ks view (first # rest) sighashtype = Inr (final, fComplete)"
    by (simp add: signrawtransaction_def)
qed

text \<open>
  Signing the two-input example alone: input 0 keeps its script push \<open>09\<close>, input 1
  receives the signer's script, and the result is incomplete.
\<close>

lemma sign_env0_single_variant:
  "signrawtransaction sign_env0 () view0 [tx_two_inputs] null_type
     = Inr (set_scriptSig 1 [Push [1]] tx_two_inputs, False)"
  by (simp add: signrawtransaction_def sighash_param_def sign_eval)

theorem unresolved_input_script_preserved_witness:
  "prev_output view0 (vin tx_two_inputs ! 0) = None
   \<and> signrawtransaction sign_env0 () view0 [tx_two_inputs] null_type
       = Inr (set_scriptSig 1 [Push [1]] tx_two_inputs, False)
   \<and> scriptSig (vin (set_scriptSig 1 [Push [1]] tx_two_inputs) ! 0) = [Push [9]]"
proof -
  have u: "prev_output view0 (vin tx_two_inputs ! 0) = None"
    by (simp add: prev_output_def view0_def tx_two_inputs_def)
  have l: "0 < length (vin tx_two_inputs)"
    by (simp add: tx_two_inputs_def)
  have o: "scriptSig (vin tx_two_inputs ! 0) = [Push [9]]"
    by (simp add: tx_two_inputs_def)
  note t = unresolved_input_script_preserved
      [of sign_env0 "()" view0 tx_two_inputs "[]" null_type
          "set_scriptSig 1 [Push [1]] tx_two_inputs" False 0]
  from t sign_env0_single_variant l u
  have "scriptSig (vin (set_scriptSig 1 [Push [1]] tx_two_inputs) ! 0) = scriptSig (vin tx_two_inputs ! 0)"
    by blast
  with u o sign_env0_single_variant show ?thesis by simp
qed


lemma sign_loop_Inl_iff_rest:
  "(\<exists>e. sign_loop env ks view ht (first # rest) first = Inl e)
     = (\<exists>i<length (vin first). prev_output view (vin first ! i) \<noteq> None
           \<and> (\<exists>txv\<in>set rest. length (vin txv) \<le> i))"
proof -
  have "\<forall>i\<in>set [0 ..< length (vin first)]. i < length (vin first)" by simp
  from sign_inputs_Inl_iff [OF this, of env ks view ht "first # rest" True]
  have "(\<exists>e. sign_loop env ks view ht (first # rest) first = Inl e)
     = (\<exists>i<length (vin first). prev_output view (vin first ! i) \<noteq> None
           \<and> (\<exists>txv\<in>set (first # rest). length (vin txv) \<le> i))"
    by (simp add: sign_loop_def Bex_def)
  then show ?thesis by auto
qed

text \<open>
  Claim C9, as the code has it.  The merge step reads \<^verbatim>\<open>txv.vin[i]\<close> of every variant
  for every input \<open>i\<close> of the merge target whose previous output resolves, without a
  bounds check; an input that does not resolve is passed over before the read.  The call
  stops on such a read exactly when an input resolves and some variant has no input at
  that index, and on nothing else; with every variant at least as long as the merge
  target this cannot happen.  Two variants, the second with fewer inputs than the first,
  reach the out-of-range read in \<^verbatim>\<open>signrawtransaction\<close> and in
  \<^verbatim>\<open>signrawtokentransaction\<close>.
\<close>

theorem merge_read_out_of_range:
  "((\<exists>e. sign_loop env ks view ht vs tx = Inl e)
      = (\<exists>i<length (vin tx). prev_output view (vin tx ! i) \<noteq> None
            \<and> (\<exists>txv\<in>set vs. length (vin txv) \<le> i)))
   \<and> (sign_loop env ks view ht vs tx = Inl e \<longrightarrow> e = variant_out_of_range)
   \<and> ((\<forall>txv\<in>set vs. length (vin tx) \<le> length (vin txv)) \<longrightarrow>
        (\<exists>final fComplete. sign_loop env ks view ht vs tx = Inr (final, fComplete)))
   \<and> (sighash_param sighashtype = Inr ht \<longrightarrow>
        ((\<exists>e. signrawtransaction env ks view (first # rest) sighashtype = Inl e)
           = (\<exists>i<length (vin first). prev_output view (vin first ! i) \<noteq> None
                 \<and> (\<exists>txv\<in>set rest. length (vin txv) \<le> i))))
   \<and> ((\<exists>e. signrawtokentransaction env ks view (first # rest) = Inl e)
         = (\<exists>i<length (vin first). prev_output view (vin first ! i) \<noteq> None
               \<and> (\<exists>txv\<in>set rest. length (vin txv) \<le> i)))
   \<and> length (vin tx_one_input) < length (vin tx_two_inputs)
   \<and> signrawtransaction sign_env0 () view0 [tx_two_inputs, tx_one_input] null_type
        = Inl variant_out_of_range
   \<and> signrawtokentransaction sign_env0 () view0 [tx_two_inputs, tx_one_input]
        = Inl variant_out_of_range"
proof (intro conjI impI)
  have "\<forall>i\<in>set [0 ..< length (vin tx)]. i < length (vin tx)" by simp
  from sign_inputs_Inl_iff [OF this, of env ks view ht vs True]
  show "(\<exists>e. sign_loop env ks view ht vs tx = Inl e)
      = (\<exists>i<length (vin tx). prev_output view (vin tx ! i) \<noteq> None
            \<and> (\<exists>txv\<in>set vs. length (vin txv) \<le> i))"
    by (simp add: sign_loop_def Bex_def)
next
  assume "sign_loop env ks view ht vs tx = Inl e"
  then show "e = variant_out_of_range"
    unfolding sign_loop_def by (rule sign_inputs_Inl_error)
next
  assume "\<forall>txv\<in>set vs. length (vin tx) \<le> length (vin txv)"
  then show "\<exists>final fComplete. sign_loop env ks view ht vs tx = Inr (final, fComplete)"
    by (rule sign_loop_returns)
next
  assume "sighash_param sighashtype = Inr ht"
  then have "signrawtransaction env ks view (first # rest) sighashtype
               = sign_loop env ks view ht (first # rest) first"
    by (simp add: signrawtransaction_def)
  then show "(\<exists>e. signrawtransaction env ks view (first # rest) sighashtype = Inl e)
           = (\<exists>i<length (vin first). prev_output view (vin first ! i) \<noteq> None
                 \<and> (\<exists>txv\<in>set rest. length (vin txv) \<le> i))"
    by (simp add: sign_loop_Inl_iff_rest)
next
  have "(\<exists>e. signrawtokentransaction env ks view (first # rest) = Inl e)
          = (\<exists>e. sign_loop env ks view SIGHASH_ALL (first # rest) first = Inl e)"
    by (auto simp add: signrawtokentransaction_def split: sum.splits)
  then show "(\<exists>e. signrawtokentransaction env ks view (first # rest) = Inl e)
         = (\<exists>i<length (vin first). prev_output view (vin first ! i) \<noteq> None
               \<and> (\<exists>txv\<in>set rest. length (vin txv) \<le> i))"
    by (simp add: sign_loop_Inl_iff_rest)
next
  show "length (vin tx_one_input) < length (vin tx_two_inputs)"
    by (simp add: tx_one_input_def tx_two_inputs_def)
next
  show "signrawtransaction sign_env0 () view0 [tx_two_inputs, tx_one_input] null_type
        = Inl variant_out_of_range"
    by (simp add: signrawtransaction_def sighash_param_def sign_env0_loop_two)
next
  show "signrawtokentransaction sign_env0 () view0 [tx_two_inputs, tx_one_input]
        = Inl variant_out_of_range"
    by (simp add: signrawtokentransaction_def sign_env0_loop_two)
qed


text \<open>Both sides of the characterisation at the two-input example.\<close>

theorem merge_read_out_of_range_witness:
  "(\<exists>final fComplete.
      sign_loop sign_env0 () view0 SIGHASH_ALL [tx_two_inputs, tx_two_inputs] tx_two_inputs
        = Inr (final, fComplete))
   \<and> (\<exists>e. sign_loop sign_env0 () view0 SIGHASH_ALL [tx_two_inputs, tx_one_input] tx_two_inputs = Inl e)"
proof -
  have b: "\<forall>txv\<in>set [tx_two_inputs, tx_two_inputs]. length (vin tx_two_inputs) \<le> length (vin txv)"
    by simp
  have r: "prev_output view0 (vin tx_two_inputs ! 1) \<noteq> None"
    by (simp add: prev_output_def view0_def tx_two_inputs_def IsAvailable_def)
  have s: "tx_one_input \<in> set [tx_two_inputs, tx_one_input] \<and> length (vin tx_one_input) \<le> 1
           \<and> 1 < length (vin tx_two_inputs)"
    by (simp add: tx_one_input_def tx_two_inputs_def)
  note t1 = merge_read_out_of_range
      [of sign_env0 "()" view0 SIGHASH_ALL "[tx_two_inputs, tx_two_inputs]" tx_two_inputs]
  note t2 = merge_read_out_of_range
      [of sign_env0 "()" view0 SIGHASH_ALL "[tx_two_inputs, tx_one_input]" tx_two_inputs]
  from t1 b have one: "\<exists>final fComplete.
      sign_loop sign_env0 () view0 SIGHASH_ALL [tx_two_inputs, tx_two_inputs] tx_two_inputs
        = Inr (final, fComplete)"
    by blast
  from r s have "\<exists>i<length (vin tx_two_inputs). prev_output view0 (vin tx_two_inputs ! i) \<noteq> None
            \<and> (\<exists>txv\<in>set [tx_two_inputs, tx_one_input]. length (vin txv) \<le> i)"
    by blast
  with t2 have two: "\<exists>e. sign_loop sign_env0 () view0 SIGHASH_ALL [tx_two_inputs, tx_one_input] tx_two_inputs = Inl e"
    by blast
  from one two show ?thesis by blast
qed

text \<open>
  The claim as written makes "every variant at least as long as the first" necessary for
  the reads to stay in bounds.  Here the second variant is shorter than the first, the
  input it lacks does not resolve, and both functions return.
\<close>

theorem merge_read_short_variant_returns_counterexample:
  "length (vin tx_known_only) < length (vin tx_known_first)
   \<and> signrawtransaction sign_env0 () view0 [tx_known_first, tx_known_only] null_type
       = Inr (set_scriptSig 0 [Push [1]] tx_known_first, False)
   \<and> signrawtokentransaction sign_env0 () view0 [tx_known_first, tx_known_only]
       = Inr (set_scriptSig 0 [Push [1]] tx_known_first)"
  by (simp add: signrawtransaction_def signrawtokentransaction_def spec_eval sign_eval)

end
